theory Spec2Isabelle
  imports Main "HOL-Library.Word" "HOL-Library.Multiset"
begin

section \<open>Strings, bytes and paths\<close>

text \<open>
  A Python \<open>str\<close> is a sequence of Unicode code points; \<open>ord(c)\<close> is the code point.
  A character is modelled by its code point, so that \<open>ord(c) > 127\<close> and the arrow
  glyph U+2192 are what they are in the program. A \<open>bytes\<close> object is a list of
  8-bit words. ASCII literals are written through \<open>asc\<close>.
\<close>

type_synonym uchar = nat
type_synonym ustr = "nat list"
type_synonym byte = "8 word"

definition asc :: "string \<Rightarrow> ustr" where
  "asc s = map of_char s"

text \<open>
  \<open>str.lower()\<close>: the letters A to Z are mapped to a to z. Characters outside ASCII are
  left as they are; no such character lowercases to one of the characters of
  \<open>.gb\<close> or \<open>.gbc\<close>, the only strings a lowercased string is compared with here.
\<close>

definition lower_char :: "uchar \<Rightarrow> uchar" where
  "lower_char c = (if 65 \<le> c \<and> c \<le> 90 then c + 32 else c)"

definition lower :: "ustr \<Rightarrow> ustr" where
  "lower s = map lower_char s"

text \<open>\<open>s.endswith(suf)\<close>.\<close>

definition endswith :: "ustr \<Rightarrow> ustr \<Rightarrow> bool" where
  "endswith s suf = (length suf \<le> length s \<and> drop (length s - length suf) s = suf)"

text \<open>
  \<open>s.startswith(p)\<close>, also used on paths, component by component, and \<open>sub in s\<close>
  on strings: \<open>sub\<close> occurs in \<open>s\<close> as a contiguous run.
\<close>

fun startswith :: "'a list \<Rightarrow> 'a list \<Rightarrow> bool" where
  "startswith s [] = True"
| "startswith [] (p # ps) = False"
| "startswith (x # xs) (p # ps) = (x = p \<and> startswith xs ps)"

fun str_in :: "ustr \<Rightarrow> ustr \<Rightarrow> bool" where
  "str_in sub [] = (sub = [])"
| "str_in sub (x # xs) = (startswith (x # xs) sub \<or> str_in sub xs)"

text \<open>\<open>str(n)\<close> for a natural number: its decimal digits.\<close>

fun str_nat :: "nat \<Rightarrow> ustr" where
  "str_nat n = (if n < 10 then [48 + n] else str_nat (n div 10) @ [48 + n mod 10])"

declare str_nat.simps [simp del]

text \<open>
  \<open>s.strip()\<close> removes the white space at both ends; the characters are those of
  \<open>str.isspace\<close>.
\<close>

definition isspace :: "uchar \<Rightarrow> bool" where
  "isspace c =
     ((9 \<le> c \<and> c \<le> 13) \<or> (28 \<le> c \<and> c \<le> 32) \<or> c = 133 \<or> c = 160 \<or> c = 5760 \<or>
      (8192 \<le> c \<and> c \<le> 8202) \<or> c = 8232 \<or> c = 8233 \<or> c = 8239 \<or> c = 8287 \<or>
      c = 12288)"

definition strip :: "ustr \<Rightarrow> ustr" where
  "strip s = rev (dropWhile isspace (rev (dropWhile isspace s)))"

text \<open>\<open>sep.join(parts)\<close>.\<close>

fun join :: "ustr \<Rightarrow> ustr list \<Rightarrow> ustr" where
  "join sep [] = []"
| "join sep [x] = x"
| "join sep (x # y # ys) = x @ sep @ join sep (y # ys)"

text \<open>\<open>s.split(c)\<close> for a one-character separator.\<close>

fun split :: "uchar \<Rightarrow> ustr \<Rightarrow> ustr list" where
  "split c [] = [[]]"
| "split c (x # xs) =
     (if x = c then [] # split c xs
      else case split c xs of [] \<Rightarrow> [[x]] | h # t \<Rightarrow> (x # h) # t)"

text \<open>\<open>s.replace(old, new)\<close> for one-character strings \<open>old\<close> and \<open>new\<close>.\<close>

definition replace :: "uchar \<Rightarrow> uchar \<Rightarrow> ustr \<Rightarrow> ustr" where
  "replace old new s = map (\<lambda>c. if c = old then new else c) s"

text \<open>\<open>s.rfind(c)\<close>: the index of the last occurrence of \<open>c\<close>, or \<open>-1\<close>.\<close>

fun rfind :: "uchar \<Rightarrow> ustr \<Rightarrow> int" where
  "rfind c [] = -1"
| "rfind c (x # xs) =
     (let r = rfind c xs in if 0 \<le> r then r + 1 else if x = c then 0 else -1)"

text \<open>
  A path is the list of its components, from the root. \<open>Path.name\<close> is the
  last component and \<open>Path.suffix\<close> is the part of the name from its last dot, unless
  that dot is the first or the last character of the name.
\<close>

type_synonym path = "ustr list"

definition path_name :: "path \<Rightarrow> ustr" where
  "path_name p = (case rev p of [] \<Rightarrow> [] | n # _ \<Rightarrow> n)"

definition name_suffix :: "ustr \<Rightarrow> ustr" where
  "name_suffix n =
     (let i = rfind 46 n in
      if 0 < i \<and> i < int (length n) - 1 then drop (nat i) n else [])"

definition path_suffix :: "path \<Rightarrow> ustr" where
  "path_suffix p = name_suffix (path_name p)"

text \<open>\<open>Path.stem\<close>: the name without its suffix.\<close>

definition path_stem :: "path \<Rightarrow> ustr" where
  "path_stem p =
     (let n = path_name p in take (length n - length (name_suffix n)) n)"

text \<open>
  \<open>os.path.basename\<close> and \<open>os.path.splitext\<close> of \<open>posixpath\<close>. The base name is the
  part after the last slash. The extension starts at the last dot of the base name,
  unless only dots stand before it.
\<close>

definition basename :: "ustr \<Rightarrow> ustr" where
  "basename p = drop (nat (rfind 47 p + 1)) p"

definition splitext :: "ustr \<Rightarrow> ustr \<times> ustr" where
  "splitext p =
     (let sepIndex = rfind 47 p; dotIndex = rfind 46 p in
      if dotIndex > sepIndex \<and>
         list_ex (\<lambda>c. c \<noteq> 46) (drop (nat (sepIndex + 1)) (take (nat dotIndex) p))
      then (take (nat dotIndex) p, drop (nat dotIndex) p)
      else (p, []))"

section \<open>Display width\<close>

text \<open>
  \<open>wcswidth\<close>, as the program defines it when the \<open>wcwidth\<close> package is absent: a
  character above code point 127 takes two cells, every other character one.
\<close>

definition wcswidth :: "ustr \<Rightarrow> int" where
  "wcswidth s = sum_list (map (\<lambda>c. if c > 127 then 2 else 1) s)"

definition pad_to_display_width :: "ustr \<Rightarrow> int \<Rightarrow> ustr" where
  "pad_to_display_width text target_width =
     (let current = wcswidth text in
      if current \<ge> target_width then text
      else text @ replicate (nat (target_width - current)) 32)"

text \<open>
  The split of \<open>text\<close> into \<open>base\<close> and \<open>ext\<close>: at the last dot, when the part from
  that dot on has at most 8 characters.
\<close>

definition split_ext :: "ustr \<Rightarrow> ustr \<times> ustr" where
  "split_ext text =
     (if 46 \<in> set text \<and> int (length text) - rfind 46 text \<le> 8
      then (let ext_start = nat (rfind 46 text) in (take ext_start text, drop ext_start text))
      else (text, []))"

text \<open>
  The loop over \<open>reversed(base)\<close> that collects the tail: characters are taken from the
  right while the tail stays within 4 cells.
\<close>

fun tail_loop :: "ustr \<Rightarrow> ustr \<Rightarrow> int \<Rightarrow> ustr \<times> int" where
  "tail_loop [] tail tail_width = (tail, tail_width)"
| "tail_loop (c # cs) tail tail_width =
     (let cw = wcswidth [c] in
      if tail_width + cw > 4 then (tail, tail_width)
      else tail_loop cs (c # tail) (tail_width + cw))"

text \<open>The loop over \<open>base\<close> that collects the prefix.\<close>

fun prefix_loop :: "ustr \<Rightarrow> ustr \<Rightarrow> int \<Rightarrow> ustr \<Rightarrow> ustr" where
  "prefix_loop [] tail prefix_max_width prefix = prefix"
| "prefix_loop (c # cs) tail prefix_max_width prefix =
     (if c \<in> set tail then prefix
      else
        let cw = wcswidth [c] in
        if wcswidth prefix + cw > prefix_max_width then prefix
        else prefix_loop cs tail prefix_max_width (prefix @ [c]))"

text \<open>The second loop over \<open>base\<close>, run when the prefix is empty and there is room.\<close>

fun special_loop :: "ustr \<Rightarrow> ustr \<Rightarrow> ustr \<Rightarrow> int \<Rightarrow> ustr \<Rightarrow> ustr" where
  "special_loop [] base tail prefix_max_width prefix = prefix"
| "special_loop (c # cs) base tail prefix_max_width prefix =
     (if str_in (prefix @ [c]) base \<and> str_in (prefix @ [c] @ tail) base
      then
        if wcswidth (prefix @ [c]) \<le> prefix_max_width
        then special_loop cs base tail prefix_max_width (prefix @ [c])
        else prefix
      else special_loop cs base tail prefix_max_width prefix)"

definition truncate_to_display_width :: "ustr \<Rightarrow> int \<Rightarrow> ustr" where
  "truncate_to_display_width text max_width =
     (if wcswidth text \<le> max_width then text
      else
        let (base, ext) = split_ext text;
            ext_width = wcswidth ext;
            ellipsis = asc ''...'';
            ellipsis_width = wcswidth ellipsis;
            min_reserve_width = 4 + ellipsis_width + ext_width
        in
        if max_width \<le> ellipsis_width + ext_width then ellipsis @ ext
        else
          let tail_reserve_width = min (4 + ellipsis_width) (max_width - ext_width);
              (tail, tail_width) = tail_loop (rev base) [] 0;
              used_width = tail_width + ellipsis_width + ext_width;
              prefix_max_width = max_width - used_width;
              prefix = prefix_loop base tail prefix_max_width [];
              prefix =
                (if prefix = [] \<and> prefix_max_width > 0
                 then special_loop base base tail prefix_max_width prefix
                 else prefix)
          in prefix @ ellipsis @ tail @ ext)"

section \<open>The file system\<close>

text \<open>
  The file system: a finite map from paths to nodes, kept as an association list.
  Names are compared case-sensitively and component by component; a \<open>..\<close> component
  is not resolved.
\<close>

datatype node = File "byte list" | Dir

type_synonym fs = "(path \<times> node) list"

definition path_exists :: "fs \<Rightarrow> path \<Rightarrow> bool" where
  "path_exists fs p = (map_of fs p \<noteq> None)"

text \<open>\<open>open(p, 'rb')\<close> followed by reading: the content of a regular file, or an error.\<close>

definition open_rb :: "fs \<Rightarrow> path \<Rightarrow> byte list option" where
  "open_rb fs p = (case map_of fs p of Some (File bs) \<Rightarrow> Some bs | _ \<Rightarrow> None)"

text \<open>\<open>Path.is_file()\<close> and the names directly below a directory, for \<open>Path.iterdir()\<close>.\<close>

definition is_file :: "fs \<Rightarrow> path \<Rightarrow> bool" where
  "is_file fs p = (case map_of fs p of Some (File bs) \<Rightarrow> True | _ \<Rightarrow> False)"

definition iterdir :: "fs \<Rightarrow> path \<Rightarrow> path list" where
  "iterdir fs d =
     remdups (filter (\<lambda>p. length p = Suc (length d) \<and> startswith p d) (map fst fs))"

text \<open>
  The errors of the file system calls. The program catches them all as \<open>Exception\<close>;
  the model keeps which one it was.
\<close>

datatype os_error =
    FileNotFoundError
  | FileExistsError
  | NotADirectoryError
  | IsADirectoryError
  | KeyError
  | BadZipFile

text \<open>Storing a node at a path and removing a path.\<close>

definition fs_put :: "fs \<Rightarrow> path \<Rightarrow> node \<Rightarrow> fs" where
  "fs_put fs p n = (p, n) # filter (\<lambda>e. fst e \<noteq> p) fs"

definition fs_del :: "fs \<Rightarrow> path \<Rightarrow> fs" where
  "fs_del fs p = filter (\<lambda>e. fst e \<noteq> p) fs"

text \<open>
  \<open>Path.mkdir(exist_ok=True)\<close>: creates the directory; an existing directory is left
  alone, an existing file is an error.
\<close>

definition mkdir_exist_ok :: "fs \<Rightarrow> path \<Rightarrow> os_error + fs" where
  "mkdir_exist_ok fs p =
     (case map_of fs p of
        None \<Rightarrow> Inr (fs_put fs p Dir)
      | Some Dir \<Rightarrow> Inr fs
      | Some (File bs) \<Rightarrow> Inl FileExistsError)"

text \<open>
  The directories \<open>base/c1\<close>, \<open>base/c1/c2\<close>, ... are created where they are missing, as
  \<open>os.makedirs\<close> does below an existing directory \<open>base\<close>. A file in the way is an
  error, which leaves the directories created before it.
\<close>

fun makedirs :: "fs \<Rightarrow> path \<Rightarrow> ustr list \<Rightarrow> (os_error \<times> fs) + fs" where
  "makedirs fs base [] = Inr fs"
| "makedirs fs base (c # cs) =
     (case map_of fs (base @ [c]) of
        None \<Rightarrow> makedirs (fs_put fs (base @ [c]) Dir) (base @ [c]) cs
      | Some Dir \<Rightarrow> makedirs fs (base @ [c]) cs
      | Some (File bs) \<Rightarrow> Inl (NotADirectoryError, fs))"

text \<open>\<open>open(p, 'wb')\<close> and writing \<open>content\<close>: the file is created or overwritten.\<close>

definition write_file :: "fs \<Rightarrow> path \<Rightarrow> byte list \<Rightarrow> os_error + fs" where
  "write_file fs p content =
     (case map_of fs p of
        Some Dir \<Rightarrow> Inl IsADirectoryError
      | _ \<Rightarrow> Inr (fs_put fs p (File content)))"

text \<open>
  \<open>Path.rename(target)\<close>, that is \<open>os.rename\<close> on POSIX, for a regular file: the source
  must exist; a target that is a directory is an error; a target that is a file is
  replaced. The program renames only the file it has just extracted; a directory as
  source is reported as an error.
\<close>

definition rename :: "fs \<Rightarrow> path \<Rightarrow> path \<Rightarrow> os_error + fs" where
  "rename fs src dst =
     (case map_of fs src of
        None \<Rightarrow> Inl FileNotFoundError
      | Some Dir \<Rightarrow> Inl IsADirectoryError
      | Some (File content) \<Rightarrow>
          (case map_of fs dst of
             Some Dir \<Rightarrow> Inl IsADirectoryError
           | _ \<Rightarrow> Inr (fs_put (fs_del fs src) dst (File content))))"

section \<open>ROM classifier\<close>

datatype gb_type = GB | GBC

text \<open>
  \<open>detect_gb_type\<close>: \<open>f.seek(0x143); b = f.read(1)\<close>. The read returns the empty
  bytes object at or beyond the end of the file. Every exception gives \<open>None\<close>.
\<close>

definition detect_gb_type :: "fs \<Rightarrow> path \<Rightarrow> gb_type option" where
  "detect_gb_type fs rom_path =
     (case open_rb fs rom_path of
        None \<Rightarrow> None
      | Some content \<Rightarrow>
          (let b = take 1 (drop 0x143 content) in
           case b of
             [] \<Rightarrow> None
           | v # _ \<Rightarrow>
               if v = 0x00 then Some GB
               else if v = 0x80 \<or> v = 0xC0 then Some GBC
               else None))"

text \<open>The three status symbols of a verdict.\<close>

datatype status = OK | MISMATCH | UNKNOWN

type_synonym verdict = "ustr \<times> status \<times> ustr"

definition check_rom :: "fs \<Rightarrow> path \<Rightarrow> ustr \<Rightarrow> verdict" where
  "check_rom fs rom_path display_name =
     (case detect_gb_type fs rom_path of
        None \<Rightarrow> (display_name, UNKNOWN, asc ''?'')
      | Some t \<Rightarrow>
          (let cur_ext = lower (path_suffix rom_path);
               exp_ext = (if t = GB then asc ''.gb'' else asc ''.gbc'');
               status = (if cur_ext = exp_ext then OK else MISMATCH);
               suggest = (if status = OK then [] else exp_ext)
           in (display_name, status, suggest)))"

text \<open>A file of \<open>0x144\<close> bytes whose last byte, at offset \<open>0x143\<close>, is \<open>v\<close>.\<close>

definition rom_with :: "byte \<Rightarrow> byte list" where
  "rom_with v = replicate 0x143 0 @ [v]"

section \<open>Archive collector: deflate-zip\<close>

text \<open>
  An opened zip archive: its entries in archive order, each a name and a content.
  \<open>namelist()\<close> gives the names in that order; \<open>extract(name, ...)\<close> reads the last
  entry of that name.
\<close>

type_synonym zip = "(ustr \<times> byte list) list"

definition namelist :: "zip \<Rightarrow> ustr list" where
  "namelist zf = map fst zf"

definition zip_read :: "zip \<Rightarrow> ustr \<Rightarrow> byte list option" where
  "zip_read zf name = map_of (rev zf) name"

text \<open>
  Where \<open>ZipFile.extract(name, out_dir)\<close> writes: the components of the name below
  \<open>out_dir\<close>, without the empty ones and without \<open>.\<close> and \<open>..\<close>.
\<close>

definition zip_target :: "path \<Rightarrow> ustr \<Rightarrow> path" where
  "zip_target out_dir name =
     out_dir @ filter (\<lambda>c. c \<noteq> [] \<and> c \<noteq> asc ''.'' \<and> c \<noteq> asc ''..'') (split 47 name)"

text \<open>
  \<open>Path(out_dir) / name\<close>: empty components and \<open>.\<close> are dropped, \<open>..\<close> is kept, and an
  absolute name replaces \<open>out_dir\<close>.
\<close>

definition path_join :: "path \<Rightarrow> ustr \<Rightarrow> path" where
  "path_join out_dir name =
     (if startswith name (asc ''/'') then [] else out_dir)
       @ filter (\<lambda>c. c \<noteq> [] \<and> c \<noteq> asc ''.'') (split 47 name)"

text \<open>
  \<open>ZipFile.extract\<close>: the missing directories above the target are created, then the
  target file is written, replacing a file that is there.
\<close>

definition zip_extract :: "zip \<Rightarrow> ustr \<Rightarrow> path \<Rightarrow> fs \<Rightarrow> (os_error \<times> fs) + fs" where
  "zip_extract zf name out_dir fs =
     (case zip_read zf name of
        None \<Rightarrow> Inl (KeyError, fs)
      | Some content \<Rightarrow>
          (let target = zip_target out_dir name in
           case makedirs fs out_dir (butlast (drop (length out_dir) target)) of
             Inl e \<Rightarrow> Inl e
           | Inr fs1 \<Rightarrow>
               (case write_file fs1 target content of
                  Inl e \<Rightarrow> Inl (e, fs1)
                | Inr fs2 \<Rightarrow> Inr fs2)))"

text \<open>
  The sum of the lengths of all names in the file system: an upper bound for the length
  of every name that exists.
\<close>

definition names_size :: "fs \<Rightarrow> nat" where
  "names_size fs = sum_list (map (\<lambda>e. sum_list (map length (fst e))) fs)"

lemma str_nat_bound: "n < 10 ^ length (str_nat n)"
proof (induction n rule: str_nat.induct)
  case (1 n)
  show ?case
  proof (cases "n < 10")
    case True
    then show ?thesis by (simp add: str_nat.simps [of n])
  next
    case False
    with 1 have ih: "n div 10 < 10 ^ length (str_nat (n div 10))" by simp
    have "n < 10 * (n div 10 + 1)" by simp
    also have "\<dots> \<le> 10 * 10 ^ length (str_nat (n div 10))"
      using ih by simp
    finally show ?thesis using False by (simp add: str_nat.simps [of n])
  qed
qed

lemma path_exists_names_size:
  assumes "path_exists fs p"
  shows "sum_list (map length p) \<le> names_size fs"
proof -
  from assms obtain n where "(p, n) \<in> set fs"
    by (auto simp: path_exists_def dest: map_of_SomeD)
  then show ?thesis
    unfolding names_size_def
    by (induction fs) auto
qed

lemma numbered_name_exists_bound:
  assumes "path_exists fs (out_dir @ [stem @ asc ''_'' @ str_nat counter @ suffix])"
  shows "counter < 10 ^ names_size fs"
proof -
  have "length (str_nat counter) \<le> names_size fs"
    using path_exists_names_size [OF assms] by simp
  then have "(10::nat) ^ length (str_nat counter) \<le> 10 ^ names_size fs"
    by (simp add: power_increasing)
  with str_nat_bound [of counter] show ?thesis
    by (rule less_le_trans)
qed

text \<open>
  The loop \<open>while out_path.exists()\<close>: the candidates \<open>stem_1suffix\<close>, \<open>stem_2suffix\<close>, ...
  are tried until one does not exist. The loop ends because the names that exist have
  bounded length, and the candidates grow.
\<close>

function unique_out_path :: "fs \<Rightarrow> path \<Rightarrow> ustr \<Rightarrow> ustr \<Rightarrow> nat \<Rightarrow> path \<Rightarrow> path" where
  "unique_out_path fs out_dir stem suffix counter out_path =
     (if path_exists fs out_path
      then unique_out_path fs out_dir stem suffix (counter + 1)
             (out_dir @ [stem @ asc ''_'' @ str_nat counter @ suffix])
      else out_path)"
  by pat_completeness auto
termination
proof (relation "measure (\<lambda>(fs, out_dir, stem, suffix, counter, out_path).
          if path_exists fs out_path then Suc (10 ^ names_size fs - counter) else 0)",
       goal_cases)
  case 1
  show ?case by simp
next
  case 2
  then show ?case
    by (auto dest: numbered_name_exists_bound)
qed

declare unique_out_path.simps [simp del]

text \<open>
  The loop \<open>for name in gb_files\<close>. An exception leaves the loop with what has been
  written so far still on disk.
\<close>

fun extract_loop ::
  "zip \<Rightarrow> path \<Rightarrow> ustr list \<Rightarrow> fs \<Rightarrow> path list \<Rightarrow> (os_error \<times> fs) + (path list \<times> fs)"
where
  "extract_loop zf out_dir [] fs roms = Inr (roms, fs)"
| "extract_loop zf out_dir (name # names) fs roms =
     (let filename = basename name;
          (stem, suffix) = splitext filename;
          out_path = unique_out_path fs out_dir stem suffix 1 (out_dir @ [filename])
      in
      case zip_extract zf name out_dir fs of
        Inl e \<Rightarrow> Inl e
      | Inr fs1 \<Rightarrow>
          (let extracted = path_join out_dir name in
           if extracted \<noteq> out_path
           then
             case rename fs1 extracted out_path of
               Inl e \<Rightarrow> Inl (e, fs1)
             | Inr fs2 \<Rightarrow> extract_loop zf out_dir names fs2 (roms @ [out_path])
           else extract_loop zf out_dir names fs1 (roms @ [out_path])))"

text \<open>The status messages of the zip collector.\<close>

datatype zip_status = ZipNoRoms | ZipSuccess | ZipFailed os_error

text \<open>
  \<open>extract_gb_gbc_from_zip\<close>. The archive is \<open>None\<close> when \<open>zipfile.ZipFile\<close> cannot open
  it. The result is the list of paths, the status and the file system afterwards.
\<close>

definition is_rom_name :: "ustr \<Rightarrow> bool" where
  "is_rom_name n = (endswith (lower n) (asc ''.gb'') \<or> endswith (lower n) (asc ''.gbc''))"

definition extract_gb_gbc_from_zip ::
  "zip option \<Rightarrow> path \<Rightarrow> fs \<Rightarrow> (path list \<times> zip_status) \<times> fs"
where
  "extract_gb_gbc_from_zip zip_path out_dir fs =
     (case zip_path of
        None \<Rightarrow> (([], ZipFailed BadZipFile), fs)
      | Some zf \<Rightarrow>
          (let gb_files = filter is_rom_name (namelist zf) in
           if gb_files = [] then (([], ZipNoRoms), fs)
           else
             case extract_loop zf out_dir gb_files fs [] of
               Inl (e, fs') \<Rightarrow> (([], ZipFailed e), fs')
             | Inr (roms, fs') \<Rightarrow> ((roms, ZipSuccess), fs')))"

section \<open>Archive collector: 7z\<close>

text \<open>
  What happens inside the \<open>try\<close> block of \<open>extract_gb_gbc_with_7za\<close>: the utility
  runs to its end and leaves its standard output, its standard error and its exit
  code; or \<open>subprocess.run\<close> raises \<open>TimeoutExpired\<close> after 300 seconds; or any other
  exception is raised, with its message.
\<close>

datatype run_outcome =
    Completed (stdout: ustr) (stderr: ustr) (returncode: int)
  | TimeoutExpired
  | OtherException ustr

text \<open>
  The status messages of the 7z collector, in the order of the source: utility not
  found, no ROM in the archive, extraction failed (with the excerpt of the output),
  success, nothing found in the directory, timeout, exception (with its message).
\<close>

datatype sevenz_status =
    SevenZMissing
  | SevenZNoRoms
  | SevenZFailed ustr
  | SevenZSuccess
  | SevenZNotFound
  | SevenZTimeout
  | SevenZException ustr

text \<open>
  \<open>extract_gb_gbc_with_7za\<close>. \<open>seven_zip_exists\<close> is \<open>os.path.exists(seven_zip)\<close> and
  \<open>fs\<close> is the file system after the utility has run, from which \<open>out_dir\<close> is listed.
\<close>

definition extract_gb_gbc_with_7za ::
  "bool \<Rightarrow> run_outcome \<Rightarrow> path \<Rightarrow> fs \<Rightarrow> path list \<times> sevenz_status"
where
  "extract_gb_gbc_with_7za seven_zip_exists outcome out_dir fs =
     (if \<not> seven_zip_exists then ([], SevenZMissing)
      else
        case outcome of
          Completed out err code \<Rightarrow>
            if str_in (asc ''No files to process'') err \<or> str_in (asc ''No files to process'') out
            then ([], SevenZNoRoms)
            else if code \<noteq> 0
            then
              (let err' = take 80 (if strip err \<noteq> [] then strip err else strip out)
               in ([], SevenZFailed err'))
            else
              (let roms =
                     filter
                       (\<lambda>f. is_file fs f \<and>
                            (lower (path_suffix f) = asc ''.gb'' \<or>
                             lower (path_suffix f) = asc ''.gbc''))
                       (iterdir fs out_dir)
               in (roms, if roms \<noteq> [] then SevenZSuccess else SevenZNotFound))
        | TimeoutExpired \<Rightarrow> ([], SevenZTimeout)
        | OtherException e \<Rightarrow> ([], SevenZException e))"

section \<open>Archive collector\<close>

text \<open>
  What the program finds at an archive path: the zip archive that \<open>zipfile.ZipFile\<close>
  opens (\<open>None\<close> when it raises), and for a 7z archive whether the utility is there,
  how its run ends and the file system it leaves.
\<close>

record archive =
  zip_file :: "zip option"
  seven_zip_exists :: bool
  run_result :: run_outcome
  fs_after_run :: fs

text \<open>
  The name of the subdirectory of an archive: an underscore, the first 20 characters
  of the stem, an underscore and the hash of the path modulo 10000 in four digits.
  The hash of a string differs from run to run and is a parameter.
\<close>

definition subdir_name :: "path \<Rightarrow> int \<Rightarrow> ustr" where
  "subdir_name archive_path path_hash =
     (let digits = str_nat (nat (\<bar>path_hash\<bar> mod 10000))
      in asc ''_'' @ take 20 (path_stem archive_path) @ asc ''_''
           @ replicate (4 - length digits) 48 @ digits)"

text \<open>
  \<open>collect_from_archive\<close>: the pairs of path and display name, and the file system
  afterwards. The display name of a ROM is \<open>f.name\<close>, the name of the file on disk.
  An error of \<open>mkdir\<close> is not caught in this function.
\<close>

definition collect_from_archive ::
  "path \<Rightarrow> int \<Rightarrow> archive \<Rightarrow> path \<Rightarrow> fs \<Rightarrow> os_error + ((path \<times> ustr) list \<times> fs)"
where
  "collect_from_archive archive_path path_hash content base_tmpdir fs =
     (let tmp_subdir = base_tmpdir @ [subdir_name archive_path path_hash] in
      case mkdir_exist_ok fs tmp_subdir of
        Inl e \<Rightarrow> Inl e
      | Inr fs1 \<Rightarrow>
          (let suf = lower (path_suffix archive_path) in
           if suf = asc ''.zip'' then
             (case extract_gb_gbc_from_zip (zip_file content) tmp_subdir fs1 of
                ((files, msg), fs2) \<Rightarrow>
                  if files = [] then Inr ([], fs2)
                  else Inr (map (\<lambda>f. (f, path_name f)) files, fs2))
           else if suf = asc ''.7z'' then
             (let fs2 = (if seven_zip_exists content then fs_after_run content else fs1) in
              case extract_gb_gbc_with_7za (seven_zip_exists content) (run_result content)
                     tmp_subdir fs2 of
                (files, msg) \<Rightarrow>
                  if files = [] then Inr ([], fs2)
                  else Inr (map (\<lambda>f. (f, path_name f)) files, fs2))
           else Inr ([], fs1)))"

text \<open>A zip archive with the given entries, on a machine without the 7z utility.\<close>

definition zip_archive :: "zip \<Rightarrow> archive" where
  "zip_archive entries =
     \<lparr>zip_file = Some entries, seven_zip_exists = False, run_result = TimeoutExpired,
      fs_after_run = []\<rparr>"

section \<open>Folder collector\<close>

text \<open>The arrow glyph U+2192 that stands for the path separator in a display name.\<close>

definition arrow :: uchar where
  "arrow = 8594"

text \<open>
  \<open>p.relative_to(other)\<close>: the components of \<open>p\<close> after those of \<open>other\<close>; \<open>None\<close> is
  the \<open>ValueError\<close> raised when \<open>p\<close> is not below \<open>other\<close>. \<open>str\<close> of a relative path
  joins the components with the separator \<open>sep\<close> of the platform; the empty path is
  written as a dot.
\<close>

definition relative_to :: "path \<Rightarrow> path \<Rightarrow> path option" where
  "relative_to p other = (if startswith p other then Some (drop (length other) p) else None)"

definition path_str :: "uchar \<Rightarrow> path \<Rightarrow> ustr" where
  "path_str sep p = (if p = [] then asc ''.'' else join [sep] p)"

text \<open>
  \<open>collect_from_folder\<close>. \<open>walk\<close> is what \<open>os.walk(folder)\<close> yields: the directories
  with the names of their files. \<open>Path(root) / f\<close> adds the file name as last component.
\<close>

definition display_name :: "uchar \<Rightarrow> path \<Rightarrow> path \<Rightarrow> ustr \<Rightarrow> ustr" where
  "display_name sep folder p f =
     (case relative_to p folder of
        Some rel \<Rightarrow> replace sep arrow (path_str sep rel)
      | None \<Rightarrow> f)"


section \<open>Verification scheduler\<close>



section \<open>Properties of the classifier\<close>

lemma open_rb_rom_with:
  "open_rb [(p, File (rom_with v))] p = Some (rom_with v)"
  by (simp add: open_rb_def)

lemma detect_rom_with:
  "detect_gb_type [(p, File (rom_with v))] p =
     (if v = 0x00 then Some GB else if v = 0x80 \<or> v = 0xC0 then Some GBC else None)"
  by (simp add: detect_gb_type_def open_rb_def rom_with_def)

text \<open>
  C5. \<open>detect_gb_type\<close> decides on the single byte at offset \<open>0x143\<close>: \<open>0x00\<close> is GB,
  \<open>0x80\<close> and \<open>0xC0\<close> are GBC, every other value is unknown (\<open>None\<close>). A file that cannot
  be opened and a file of at most \<open>0x143\<close> bytes, where the read is empty, are unknown
  too; no error leaves the function.
\<close>

theorem detect_gb_type_header_byte:
  "(open_rb fs p = None \<longrightarrow> detect_gb_type fs p = None) \<and>
   (open_rb fs p = Some bs \<and> length bs < 0x144 \<longrightarrow> detect_gb_type fs p = None) \<and>
   (open_rb fs p = Some bs \<and> 0x144 \<le> length bs \<longrightarrow>
      detect_gb_type fs p =
        (if bs ! 0x143 = 0x00 then Some GB
         else if bs ! 0x143 = 0x80 \<or> bs ! 0x143 = 0xC0 then Some GBC
         else None))"
proof (intro conjI impI)
  assume "open_rb fs p = None"
  then show "detect_gb_type fs p = None"
    by (simp add: detect_gb_type_def)
next
  assume a: "open_rb fs p = Some bs \<and> length bs < 0x144"
  then have "drop 0x143 bs = []" by simp
  with a show "detect_gb_type fs p = None"
    by (simp add: detect_gb_type_def)
next
  assume a: "open_rb fs p = Some bs \<and> 0x144 \<le> length bs"
  then have "0x143 < length bs" by simp
  then have "drop 0x143 bs = bs ! 0x143 # drop (Suc 0x143) bs"
    by (rule Cons_nth_drop_Suc [symmetric])
  then have "take 1 (drop 0x143 bs) = [bs ! 0x143]"
    by simp
  with a show "detect_gb_type fs p =
        (if bs ! 0x143 = 0x00 then Some GB
         else if bs ! 0x143 = 0x80 \<or> bs ! 0x143 = 0xC0 then Some GBC
         else None)"
    by (simp add: detect_gb_type_def)
qed

theorem detect_gb_type_header_byte_witness:
  "(open_rb [] [asc ''a.gb''] = None \<and> detect_gb_type [] [asc ''a.gb''] = None) \<and>
   (open_rb [([asc ''a.gb''], File [0, 0x80])] [asc ''a.gb''] = Some [0, 0x80] \<and>
      length [0, 0x80 :: byte] < 0x144 \<and>
      detect_gb_type [([asc ''a.gb''], File [0, 0x80])] [asc ''a.gb''] = None) \<and>
   (open_rb [([asc ''a.gb''], File (rom_with 0xC0))] [asc ''a.gb''] = Some (rom_with 0xC0) \<and>
      0x144 \<le> length (rom_with 0xC0) \<and> rom_with 0xC0 ! 0x143 = 0xC0 \<and>
      detect_gb_type [([asc ''a.gb''], File (rom_with 0xC0))] [asc ''a.gb''] = Some GBC)"
  using detect_gb_type_header_byte [of "[]" "[asc ''a.gb'']" "[]"]
    detect_gb_type_header_byte
      [of "[([asc ''a.gb''], File [0, 0x80])]" "[asc ''a.gb'']" "[0, 0x80]"]
    detect_gb_type_header_byte
      [of "[([asc ''a.gb''], File (rom_with 0xC0))]" "[asc ''a.gb'']" "rom_with 0xC0"]
  by (simp add: open_rb_def rom_with_def nth_append)

text \<open>
  C4, as the code has it. For a file whose header type is unknown, \<open>check_rom\<close> returns the
  display name, the status UNKNOWN and the suggestion \<open>?\<close>, whatever the extension
  of the file is.
\<close>

theorem check_rom_unknown:
  "detect_gb_type fs p = None \<Longrightarrow> check_rom fs p dn = (dn, UNKNOWN, asc ''?'')"
  by (simp add: check_rom_def)

theorem check_rom_unknown_witness:
  "detect_gb_type [([asc ''a.gbc''], File (rom_with 0x55))] [asc ''a.gbc''] = None \<and>
   check_rom [([asc ''a.gbc''], File (rom_with 0x55))] [asc ''a.gbc''] (asc ''a.gbc'')
     = (asc ''a.gbc'', UNKNOWN, asc ''?'')"
proof -
  have h: "detect_gb_type [([asc ''a.gbc''], File (rom_with 0x55))] [asc ''a.gbc''] = None"
    by (simp add: detect_rom_with)
  show ?thesis
    using h check_rom_unknown [OF h, of "asc ''a.gbc''"] by simp
qed

text \<open>
  C4, as the specification states it, fails: for the header byte \<open>0x55\<close> the type is
  unknown and the suggestion field of the verdict is not the empty string.
\<close>

theorem check_rom_unknown_suggestion_counterexample:
  "detect_gb_type [([asc ''a.gb''], File (rom_with 0x55))] [asc ''a.gb''] = None \<and>
   check_rom [([asc ''a.gb''], File (rom_with 0x55))] [asc ''a.gb''] (asc ''a.gb'')
     \<noteq> (asc ''a.gb'', UNKNOWN, [])"
  by (simp add: check_rom_def detect_rom_with asc_def)

text \<open>
  C6. When the header type is GB or GBC, \<open>check_rom\<close> compares the lowercased suffix of
  the path with the expected extension, \<open>.gb\<close> for GB and \<open>.gbc\<close> for GBC. Equal: status
  OK and empty suggestion. Different: status MISMATCH and the expected extension as
  suggestion.
\<close>

theorem check_rom_known:
  "detect_gb_type fs p = Some t \<Longrightarrow>
   check_rom fs p dn =
     (if lower (path_suffix p) = (if t = GB then asc ''.gb'' else asc ''.gbc'')
      then (dn, OK, [])
      else (dn, MISMATCH, if t = GB then asc ''.gb'' else asc ''.gbc''))"
  by (simp add: check_rom_def Let_def)

lemma suffix_examples:
  "lower (path_suffix [asc ''a.gb'']) = asc ''.gb''"
  "lower (path_suffix [asc ''A.GB'']) = asc ''.gb''"
  "lower (path_suffix [asc ''sub'', asc ''a.gbc'']) = asc ''.gbc''"
  by (simp_all add: path_suffix_def path_name_def name_suffix_def lower_def lower_char_def
      asc_def Let_def)

theorem check_rom_known_witness:
  "(detect_gb_type [([asc ''a.gb''], File (rom_with 0x00))] [asc ''a.gb''] = Some GB \<and>
    check_rom [([asc ''a.gb''], File (rom_with 0x00))] [asc ''a.gb''] (asc ''a.gb'')
      = (asc ''a.gb'', OK, [])) \<and>
   (detect_gb_type [([asc ''A.GB''], File (rom_with 0x00))] [asc ''A.GB''] = Some GB \<and>
    check_rom [([asc ''A.GB''], File (rom_with 0x00))] [asc ''A.GB''] (asc ''A.GB'')
      = (asc ''A.GB'', OK, [])) \<and>
   (detect_gb_type [([asc ''a.gb''], File (rom_with 0xC0))] [asc ''a.gb''] = Some GBC \<and>
    check_rom [([asc ''a.gb''], File (rom_with 0xC0))] [asc ''a.gb''] (asc ''a.gb'')
      = (asc ''a.gb'', MISMATCH, asc ''.gbc''))"
proof -
  have h1: "detect_gb_type [([asc ''a.gb''], File (rom_with 0x00))] [asc ''a.gb''] = Some GB"
    by (simp add: detect_rom_with)
  have h2: "detect_gb_type [([asc ''A.GB''], File (rom_with 0x00))] [asc ''A.GB''] = Some GB"
    by (simp add: detect_rom_with)
  have h3: "detect_gb_type [([asc ''a.gb''], File (rom_with 0xC0))] [asc ''a.gb''] = Some GBC"
    by (simp add: detect_rom_with)
  have ne: "asc ''.gb'' \<noteq> asc ''.gbc''"
    by (simp add: asc_def)
  show ?thesis
    using h1 h2 h3 ne
      check_rom_known [OF h1, of "asc ''a.gb''"]
      check_rom_known [OF h2, of "asc ''A.GB''"]
      check_rom_known [OF h3, of "asc ''a.gb''"]
    by (simp add: suffix_examples)
qed

section \<open>Properties of the truncation\<close>

lemma wcswidth_append: "wcswidth (a @ b) = wcswidth a + wcswidth b"
  by (simp add: wcswidth_def)

lemma wcswidth_le_twice: "wcswidth s \<le> 2 * int (length s)"
  by (induction s) (auto simp: wcswidth_def)

lemma endswith_append: "endswith (s @ suf) suf"
  by (simp add: endswith_def)

lemma split_ext_parts: "fst (split_ext text) @ snd (split_ext text) = text"
  by (simp add: split_ext_def Let_def)

lemma split_ext_length: "length (snd (split_ext text)) \<le> 8"
  by (auto simp: split_ext_def Let_def)

text \<open>The width that \<open>tail_loop\<close> returns is the width of its tail, at most 4 cells.\<close>

lemma tail_loop_width:
  "tail_width = wcswidth tail \<Longrightarrow> tail_width \<le> 4 \<Longrightarrow>
   snd (tail_loop cs tail tail_width) = wcswidth (fst (tail_loop cs tail tail_width)) \<and>
   snd (tail_loop cs tail tail_width) \<le> 4"
proof (induction cs arbitrary: tail tail_width)
  case Nil
  then show ?case by simp
next
  case (Cons c cs)
  show ?case
  proof (cases "tail_width + wcswidth [c] > 4")
    case True
    with Cons.prems show ?thesis by (simp add: Let_def)
  next
    case False
    have "tail_width + wcswidth [c] = wcswidth (c # tail)"
      using Cons.prems(1) by (simp add: wcswidth_def)
    moreover have "tail_width + wcswidth [c] \<le> 4" using False by simp
    ultimately have "snd (tail_loop cs (c # tail) (tail_width + wcswidth [c]))
        = wcswidth (fst (tail_loop cs (c # tail) (tail_width + wcswidth [c]))) \<and>
      snd (tail_loop cs (c # tail) (tail_width + wcswidth [c])) \<le> 4"
      by (rule Cons.IH)
    with False show ?thesis by (simp add: Let_def)
  qed
qed

text \<open>Both prefix loops keep the prefix within the width they are given.\<close>

lemma prefix_loop_width:
  "wcswidth prefix \<le> prefix_max_width \<Longrightarrow>
   wcswidth (prefix_loop cs tail prefix_max_width prefix) \<le> prefix_max_width"
proof (induction cs arbitrary: prefix)
  case Nil
  then show ?case by simp
next
  case (Cons c cs)
  show ?case
  proof (cases "c \<in> set tail \<or> wcswidth prefix + wcswidth [c] > prefix_max_width")
    case True
    with Cons.prems show ?thesis by (auto simp: Let_def)
  next
    case False
    then have "wcswidth (prefix @ [c]) \<le> prefix_max_width"
      by (simp add: wcswidth_append)
    then have "wcswidth (prefix_loop cs tail prefix_max_width (prefix @ [c])) \<le> prefix_max_width"
      by (rule Cons.IH)
    with False show ?thesis by (simp add: Let_def)
  qed
qed

lemma special_loop_width:
  "wcswidth prefix \<le> prefix_max_width \<Longrightarrow>
   wcswidth (special_loop cs base tail prefix_max_width prefix) \<le> prefix_max_width"
proof (induction cs arbitrary: prefix)
  case Nil
  then show ?case by simp
next
  case (Cons c cs)
  show ?case
  proof (cases "str_in (prefix @ [c]) base \<and> str_in (prefix @ [c] @ tail) base")
    case False
    with Cons.IH [OF Cons.prems] show ?thesis by auto
  next
    case True
    show ?thesis
    proof (cases "wcswidth (prefix @ [c]) \<le> prefix_max_width")
      case fits: True
      from Cons.IH [OF fits] True fits show ?thesis by simp
    next
      case False
      with True Cons.prems show ?thesis by simp
    qed
  qed
qed

text \<open>
  What holds of the truncation for every text and width: the result ends with the
  extension that \<open>split_ext\<close> detects; and it fits in \<open>max_width\<close> cells as soon as
  \<open>max_width\<close> leaves room for the ellipsis, the extension and a tail of 4 cells.
\<close>

lemma truncate_keeps_ext:
  "endswith (truncate_to_display_width text max_width) (snd (split_ext text))"
proof -
  obtain base ext where se: "split_ext text = (base, ext)"
    by (cases "split_ext text")
  have "text = base @ ext"
    using split_ext_parts [of "text"] by (simp add: se)
  then have whole: "endswith text ext"
    using endswith_append [of base ext] by simp
  have short: "endswith (asc ''...'' @ ext) ext"
    by (rule endswith_append)
  have long: "endswith (p @ asc ''...'' @ t @ ext) ext" for p t
    using endswith_append [of "p @ asc ''...'' @ t" ext] by simp
  show ?thesis
    by (simp add: truncate_to_display_width_def se Let_def whole short long split: prod.splits)
qed

lemma truncate_width_bound:
  assumes room: "wcswidth (asc ''...'') + wcswidth (snd (split_ext text)) + 4 \<le> max_width"
  shows "wcswidth (truncate_to_display_width text max_width) \<le> max_width"
proof (cases "wcswidth text \<le> max_width")
  case True
  then show ?thesis by (simp add: truncate_to_display_width_def)
next
  case False
  obtain base ext where se: "split_ext text = (base, ext)"
    by (cases "split_ext text")
  obtain tail tail_width where tl: "tail_loop (rev base) [] 0 = (tail, tail_width)"
    by (cases "tail_loop (rev base) [] 0")
  define pmw where "pmw = max_width - (tail_width + wcswidth (asc ''...'') + wcswidth ext)"
  define prefix1 where "prefix1 = prefix_loop base tail pmw []"
  define prefix2 where
    "prefix2 = (if prefix1 = [] \<and> pmw > 0 then special_loop base base tail pmw prefix1
                else prefix1)"
  have "snd (tail_loop (rev base) [] 0) = wcswidth (fst (tail_loop (rev base) [] 0)) \<and>
      snd (tail_loop (rev base) [] 0) \<le> 4"
    by (rule tail_loop_width) (simp_all add: wcswidth_def)
  then have tw: "tail_width = wcswidth tail" and tw4: "tail_width \<le> 4"
    by (simp_all add: tl)
  have room': "wcswidth (asc ''...'') + wcswidth ext + 4 \<le> max_width"
    using room by (simp add: se)
  have pmw0: "0 \<le> pmw"
    using room' tw4 by (simp add: pmw_def)
  have "wcswidth [] \<le> pmw"
    using pmw0 by (simp add: wcswidth_def)
  then have p1: "wcswidth prefix1 \<le> pmw"
    unfolding prefix1_def by (rule prefix_loop_width)
  then have "wcswidth (special_loop base base tail pmw prefix1) \<le> pmw"
    by (rule special_loop_width)
  with p1 have p2: "wcswidth prefix2 \<le> pmw"
    by (auto simp: prefix2_def)
  have late: "\<not> max_width \<le> wcswidth (asc ''...'') + wcswidth ext"
    using room' by simp
  have res: "truncate_to_display_width text max_width = prefix2 @ asc ''...'' @ tail @ ext"
    using False late
    by (simp add: truncate_to_display_width_def se tl Let_def prefix2_def prefix1_def pmw_def)
  have "wcswidth (prefix2 @ asc ''...'' @ tail @ ext)
      = wcswidth prefix2 + (tail_width + wcswidth (asc ''...'') + wcswidth ext)"
    by (simp add: wcswidth_append tw)
  also have "\<dots> \<le> pmw + (tail_width + wcswidth (asc ''...'') + wcswidth ext)"
    using p2 by simp
  also have "\<dots> = max_width"
    by (simp add: pmw_def)
  finally show ?thesis
    by (simp add: res)
qed

text \<open>
  \<open>print_table\<close> truncates every name to 48 cells. An extension has at most 8
  characters, hence at most 16 cells, so every truncated name fits.
\<close>

lemma truncate_name_column:
  "wcswidth (truncate_to_display_width name 48) \<le> 48"
proof (rule truncate_width_bound)
  have "wcswidth (snd (split_ext name)) \<le> 2 * int (length (snd (split_ext name)))"
    by (rule wcswidth_le_twice)
  also have "\<dots> \<le> 16"
    using split_ext_length [of name] by simp
  finally show "wcswidth (asc ''...'') + wcswidth (snd (split_ext name)) + 4 \<le> 48"
    by (simp add: wcswidth_def asc_def)
qed

text \<open>
  C1. The specification asks that \<open>truncate_to_display_width text w\<close> is at most \<open>w\<close>
  cells wide unless the ellipsis and the extension alone exceed \<open>w\<close>. At the name
  \<open>abcdefgh.gb\<close> and the width 7 the ellipsis and the extension \<open>.gb\<close> take 6 cells,
  which fit, and the function returns \<open>...efgh.gb\<close>, 10 cells wide: the tail of 4
  cells is kept although only one cell is left for it.
\<close>

theorem truncate_exceeds_max_width:
  "truncate_to_display_width (asc ''abcdefgh.gb'') 7 = asc ''...efgh.gb'' \<and>
   wcswidth (truncate_to_display_width (asc ''abcdefgh.gb'') 7) = 10 \<and>
   snd (split_ext (asc ''abcdefgh.gb'')) = asc ''.gb'' \<and>
   wcswidth (asc ''...'') + wcswidth (snd (split_ext (asc ''abcdefgh.gb''))) = 6"
  by (simp add: truncate_to_display_width_def split_ext_def wcswidth_def asc_def Let_def)

section \<open>Properties of the zip collector\<close>

lemmas zip_eval =
  extract_gb_gbc_from_zip_def namelist_def is_rom_name_def lower_def lower_char_def
  endswith_def asc_def basename_def splitext_def Let_def unique_out_path.simps
  path_exists_def zip_extract_def zip_read_def zip_target_def path_join_def write_file_def
  rename_def fs_put_def fs_del_def str_nat.simps

text \<open>
  The renaming loop returns a path that does not exist, and that path is the one it
  was given or a numbered one whose number is at least the counter it started from.
\<close>

lemma unique_out_path_free:
  "\<not> path_exists fs (unique_out_path fs out_dir stem suffix counter out_path)"
proof (induction fs out_dir stem suffix counter out_path rule: unique_out_path.induct)
  case (1 fs out_dir stem suffix counter out_path)
  then show ?case
    by (cases "path_exists fs out_path")
       (simp_all add: unique_out_path.simps [of fs out_dir stem suffix counter out_path])
qed

lemma unique_out_path_form:
  "unique_out_path fs out_dir stem suffix counter out_path = out_path \<or>
   (\<exists>n\<ge>counter. unique_out_path fs out_dir stem suffix counter out_path
        = out_dir @ [stem @ asc ''_'' @ str_nat n @ suffix])"
proof (induction fs out_dir stem suffix counter out_path rule: unique_out_path.induct)
  case (1 fs out_dir stem suffix counter out_path)
  show ?case
  proof (cases "path_exists fs out_path")
    case False
    then show ?thesis
      by (simp add: unique_out_path.simps [of fs out_dir stem suffix counter out_path])
  next
    case True
    let ?next = "out_dir @ [stem @ asc ''_'' @ str_nat counter @ suffix]"
    have step: "unique_out_path fs out_dir stem suffix counter out_path
        = unique_out_path fs out_dir stem suffix (counter + 1) ?next"
      using True by (simp add: unique_out_path.simps [of fs out_dir stem suffix counter out_path])
    from 1 [OF True]
    have "unique_out_path fs out_dir stem suffix (counter + 1) ?next = ?next \<or>
      (\<exists>n\<ge>counter + 1. unique_out_path fs out_dir stem suffix (counter + 1) ?next
          = out_dir @ [stem @ asc ''_'' @ str_nat n @ suffix])" .
    then show ?thesis
    proof
      assume "unique_out_path fs out_dir stem suffix (counter + 1) ?next = ?next"
      with step show ?thesis by auto
    next
      assume "\<exists>n\<ge>counter + 1. unique_out_path fs out_dir stem suffix (counter + 1) ?next
          = out_dir @ [stem @ asc ''_'' @ str_nat n @ suffix]"
      then obtain n where "counter + 1 \<le> n"
        and "unique_out_path fs out_dir stem suffix (counter + 1) ?next
          = out_dir @ [stem @ asc ''_'' @ str_nat n @ suffix]" by blast
      with step show ?thesis
        by (intro disjI2 exI [of _ n]) simp
    qed
  qed
qed


lemma extract_sub_then_a:
  "extract_gb_gbc_from_zip (Some [(asc ''sub/a.gb'', c1), (asc ''a.gb'', c2)]) (base @ [n])
        [(base @ [n], Dir), (base, Dir)]
      = (([base @ [n, asc ''a.gb''], base @ [n, asc ''a_1.gb'']], ZipSuccess),
         [(base @ [n, asc ''a_1.gb''], File c2), (base @ [n, asc ''sub''], Dir),
          (base @ [n], Dir), (base, Dir)])"
  by (simp add: zip_eval)

lemma mkdir_subdir:
  "mkdir_exist_ok [(base, Dir)] (base @ [n]) = Inr [(base @ [n], Dir), (base, Dir)]"
  by (simp add: mkdir_exist_ok_def fs_put_def)


lemma collect_sub_then_a:
  assumes "lower (path_suffix archive_path) = asc ''.zip''"
    and "zip_file content = Some [(asc ''sub/a.gb'', c1), (asc ''a.gb'', c2)]"
    and "n = subdir_name archive_path path_hash"
  shows "collect_from_archive archive_path path_hash content base [(base, Dir)]
      = Inr ([(base @ [n, asc ''a.gb''], asc ''a.gb''),
              (base @ [n, asc ''a_1.gb''], asc ''a_1.gb'')],
             [(base @ [n, asc ''a_1.gb''], File c2), (base @ [n, asc ''sub''], Dir),
              (base @ [n], Dir), (base, Dir)])"
  using assms
  by (simp add: collect_from_archive_def Let_def mkdir_subdir extract_sub_then_a path_name_def)

lemma roms_zip_suffix: "lower (path_suffix [asc ''roms.zip'']) = asc ''.zip''"
  by (simp add: path_suffix_def path_name_def name_suffix_def lower_def lower_char_def
      asc_def Let_def)

lemma roms_zip_subdir: "subdir_name [asc ''roms.zip''] 42 = asc ''_roms_0042''"
proof -
  have digits: "str_nat (nat (\<bar>42\<bar> mod 10000)) = [52, 50]"
    by (simp add: str_nat.simps)
  have fill: "replicate (4 - length [52, 50 :: nat]) (48 :: nat) = [48, 48]"
    by (simp add: numeral_2_eq_2)
  have stem: "take 20 (path_stem [asc ''roms.zip'']) = asc ''roms''"
    by (simp add: path_stem_def path_name_def name_suffix_def asc_def Let_def)
  show ?thesis
    unfolding subdir_name_def Let_def digits fill stem
    by (simp add: asc_def)
qed




text \<open>
  C3. The specification asks that the path of every collected ROM exists when it is
  verified. An archive that lists \<open>sub/a.gb\<close> and then \<open>a.gb\<close>: the first entry is
  extracted and moved to \<open>a.gb\<close>, which is collected; the second entry is extracted
  over that very file, which is then renamed to \<open>a_1.gb\<close>. The path collected first no
  longer exists, the GB ROM of the first entry is lost, and \<open>check_rom\<close> answers UNKNOWN
  for it.
\<close>

theorem collect_zip_path_lost:
  "case collect_from_archive [asc ''roms.zip''] 42
          (zip_archive [(asc ''sub/a.gb'', rom_with 0x00), (asc ''a.gb'', rom_with 0x80)])
          [asc ''tmp''] [([asc ''tmp''], Dir)] of
     Inl e \<Rightarrow> False
   | Inr (roms, fs') \<Rightarrow>
       roms = [([asc ''tmp'', asc ''_roms_0042'', asc ''a.gb''], asc ''a.gb''),
               ([asc ''tmp'', asc ''_roms_0042'', asc ''a_1.gb''], asc ''a_1.gb'')] \<and>
       \<not> path_exists fs' [asc ''tmp'', asc ''_roms_0042'', asc ''a.gb''] \<and>
       open_rb fs' [asc ''tmp'', asc ''_roms_0042'', asc ''a_1.gb''] = Some (rom_with 0x80) \<and>
       check_rom fs' [asc ''tmp'', asc ''_roms_0042'', asc ''a.gb''] (asc ''a.gb'')
         = (asc ''a.gb'', UNKNOWN, asc ''?'')"
proof -
  have "zip_file (zip_archive [(asc ''sub/a.gb'', rom_with 0x00), (asc ''a.gb'', rom_with 0x80)])
     = Some [(asc ''sub/a.gb'', rom_with 0x00), (asc ''a.gb'', rom_with 0x80)]"
    by (simp add: zip_archive_def)
  from collect_sub_then_a [OF roms_zip_suffix this roms_zip_subdir [symmetric],
      of "[asc ''tmp'']"]
  show ?thesis
    by (simp add: path_exists_def open_rb_def check_rom_def detect_gb_type_def asc_def)
qed

text \<open>
  C10. The specification asks that the target paths returned for one archive are
  pairwise distinct. An archive that lists \<open>sub/a.gb\<close>, \<open>a.gb\<close> and \<open>sub2/a.gb\<close>: after
  the second entry the file \<open>a.gb\<close> has been renamed away, so the third entry finds
  the name \<open>a.gb\<close> free and takes it again. The returned list holds the path \<open>a.gb\<close>
  twice.
\<close>

theorem extract_zip_targets_repeat:
  "extract_gb_gbc_from_zip
      (Some [(asc ''sub/a.gb'', rom_with 0x00), (asc ''a.gb'', rom_with 0x80),
             (asc ''sub2/a.gb'', rom_with 0xC0)])
      [asc ''out''] [([asc ''out''], Dir)]
     = (([[asc ''out'', asc ''a.gb''], [asc ''out'', asc ''a_1.gb''],
          [asc ''out'', asc ''a.gb'']], ZipSuccess),
        [([asc ''out'', asc ''a.gb''], File (rom_with 0xC0)),
         ([asc ''out'', asc ''sub2''], Dir),
         ([asc ''out'', asc ''a_1.gb''], File (rom_with 0x80)),
         ([asc ''out'', asc ''sub''], Dir),
         ([asc ''out''], Dir)]) \<and>
   \<not> distinct [[asc ''out'', asc ''a.gb''], [asc ''out'', asc ''a_1.gb''],
                [asc ''out'', asc ''a.gb'']]"
  by (simp add: zip_eval)

section \<open>Properties of the 7z collector\<close>





section \<open>Properties of the folder collector\<close>











section \<open>Properties of the verification scheduler\<close>






end
